theory Spec2Isabelle
  imports Complex_Main "HOL-Library.Sublist" "HOL-Library.Log_Nat"
begin

section \<open>FIMS dashboard: inspection lifecycle and record-query engine\<close>

text \<open>
  A shallow embedding of the lifecycle handlers and of the query and aggregation helpers of
  \<^verbatim>\<open>src/components/FIMSDashboard.tsx\<close>. The helpers are closures over the component
  state; here they take that state as an argument.
\<close>

subsection \<open>JavaScript strings\<close>

text \<open>
  Strings are character lists. The case mappings \<^verbatim>\<open>toLowerCase\<close> and \<^verbatim>\<open>toUpperCase\<close>
  belong to the runtime and follow the Unicode tables: they are collaborators of the model
  (fields of the dashboard below), and what is proved of the helpers holds for every case
  mapping. \<open>asciiLower\<close> and \<open>asciiUpper\<close> are what the two do on ASCII text; the sample
  data holds no other text.
\<close>

definition lowerChar :: "char \<Rightarrow> char" where
  "lowerChar c =
     (let n = (of_char c :: nat) in if 65 \<le> n \<and> n \<le> 90 then char_of (n + 32) else c)"

definition upperChar :: "char \<Rightarrow> char" where
  "upperChar c =
     (let n = (of_char c :: nat) in if 97 \<le> n \<and> n \<le> 122 then char_of (n - 32) else c)"

definition asciiLower :: "string \<Rightarrow> string" where
  "asciiLower s = map lowerChar s"

definition asciiUpper :: "string \<Rightarrow> string" where
  "asciiUpper s = map upperChar s"

text \<open>
  \<^verbatim>\<open>hay.includes(needle)\<close>: the needle occurs in the haystack as a contiguous run; the
  empty needle occurs in every string.
\<close>

fun strIncludes :: "string \<Rightarrow> string \<Rightarrow> bool" where
  "strIncludes [] needle = (needle = [])"
| "strIncludes (c # cs) needle = (prefix needle (c # cs) \<or> strIncludes cs needle)"

text \<open>
  What the translation function \<^verbatim>\<open>t\<close> hands back: a string, or a value that is no
  string (the lookup of a key can end on a function or an object). Calling
  \<^verbatim>\<open>toLowerCase\<close> on such a value throws a \<^verbatim>\<open>TypeError\<close>.
\<close>

datatype jsvalue = JString string | JOther

datatype error = TypeError

subsection \<open>Data model\<close>

record InspectionPhoto =
  photo_id :: string
  photo_url :: string
  photo_name :: "string option"
  photo_description :: "string option"
  photo_order :: int
  uploaded_at :: string

text \<open>
  The interface \<^verbatim>\<open>Inspection\<close>. Fields the source reads through \<^verbatim>\<open>?.\<close> or declares
  nullable are options; \<^verbatim>\<open>form_data\<close> is opaque.
\<close>

record Inspection =
  insp_id :: string
  inspection_number :: "string option"
  category_id :: string
  inspector_id :: string
  location_name :: "string option"
  latitude :: "rat option"
  longitude :: "rat option"
  address :: "string option"
  planned_date :: "string option"
  inspection_date :: "string option"
  status :: string
  form_data :: string
  is_compliant :: "bool option"
  requires_revisit :: bool
  created_at :: string
  updated_at :: string
  filled_by_name :: "string option"
  photos :: "InspectionPhoto list"

record Category =
  cat_id :: string
  cat_name :: string
  name_marathi :: string
  cat_description :: string
  form_type :: string
  is_active :: bool

text \<open>The state \<^verbatim>\<open>columnFilters\<close>, one text per table column.\<close>

record ColumnFilters =
  inspectionNumber :: string
  location :: string
  category :: string
  statusText :: string
  date :: string
  filledByName :: string

text \<open>
  The part of the component state the helpers close over, with the collaborators they
  call: the translation function \<^verbatim>\<open>t\<close> of the i18n library (here \<open>translate\<close>, given the
  key and the default value), the case mappings of the runtime, and the date formatter
  behind \<^verbatim>\<open>new Date(s).toLocaleDateString()\<close>, which depends on the locale of the browser.
\<close>

record Dashboard =
  inspections :: "Inspection list"
  categories :: "Category list"
  selectedCategory :: string
  selectedStatus :: string
  searchTerm :: string
  columnFilters :: ColumnFilters
  translate :: "string \<Rightarrow> string \<Rightarrow> jsvalue"
  toLowerCase :: "string \<Rightarrow> string"
  toUpperCase :: "string \<Rightarrow> string"
  toLocaleDateString :: "string \<Rightarrow> string"

text \<open>
  \<^verbatim>\<open>field?.toLowerCase().includes(needle.toLowerCase())\<close>: on a \<^verbatim>\<open>null\<close> or
  \<^verbatim>\<open>undefined\<close> field the optional chain yields \<^verbatim>\<open>undefined\<close>, which every consumer
  in the source (\<^verbatim>\<open>||\<close>, \<^verbatim>\<open>&&\<close>, the filter callback) reads as false.
\<close>

definition optIncludesLower :: "Dashboard \<Rightarrow> string option \<Rightarrow> string \<Rightarrow> bool" where
  "optIncludesLower d field needle =
     (case field of
        None \<Rightarrow> False
      | Some v \<Rightarrow> strIncludes (toLowerCase d v) (toLowerCase d needle))"

text \<open>
  \<^verbatim>\<open>value.toLowerCase().includes(needle.toLowerCase())\<close> on a value that \<^verbatim>\<open>t\<close> returned.
\<close>

definition lowerIncludes :: "Dashboard \<Rightarrow> jsvalue \<Rightarrow> string \<Rightarrow> error + bool" where
  "lowerIncludes d v needle =
     (case v of
        JString s \<Rightarrow> Inr (strIncludes (toLowerCase d s) (toLowerCase d needle))
      | JOther \<Rightarrow> Inl TypeError)"

subsection \<open>Status display\<close>

text \<open>\<^verbatim>\<open>t(`statuses.${status}`, status.toUpperCase())\<close>.\<close>

definition getStatusText :: "Dashboard \<Rightarrow> string \<Rightarrow> jsvalue" where
  "getStatusText d st = translate d (''statuses.'' @ st) (toUpperCase d st)"

definition emerald :: string where
  "emerald = ''bg-gradient-to-r from-emerald-500 to-teal-500 text-white''"

definition blue :: string where
  "blue = ''bg-gradient-to-r from-blue-500 to-cyan-500 text-white''"

definition slate :: string where
  "slate = ''bg-gradient-to-r from-slate-400 to-slate-500 text-white''"

definition rose :: string where
  "rose = ''bg-gradient-to-r from-rose-500 to-red-500 text-white''"

definition violet :: string where
  "violet = ''bg-gradient-to-r from-violet-500 to-purple-500 text-white''"

definition getStatusColor :: "string \<Rightarrow> string" where
  "getStatusColor st =
     (if st = ''approved'' \<or> st = ''completed'' then emerald
      else if st = ''submitted'' \<or> st = ''under_review'' then blue
      else if st = ''draft'' \<or> st = ''pending'' then slate
      else if st = ''rejected'' then rose
      else if st = ''reassigned'' then violet
      else slate)"

subsection \<open>Filtering\<close>

definition matchesSearch :: "Dashboard \<Rightarrow> Inspection \<Rightarrow> bool" where
  "matchesSearch d i \<longleftrightarrow>
     searchTerm d = [] \<or>
     optIncludesLower d (location_name i) (searchTerm d) \<or>
     optIncludesLower d (inspection_number i) (searchTerm d)"

definition matchesCategory :: "Dashboard \<Rightarrow> Inspection \<Rightarrow> bool" where
  "matchesCategory d i \<longleftrightarrow> selectedCategory d = [] \<or> category_id i = selectedCategory d"

definition matchesStatus :: "Dashboard \<Rightarrow> Inspection \<Rightarrow> bool" where
  "matchesStatus d i \<longleftrightarrow> selectedStatus d = [] \<or> status i = selectedStatus d"

definition matchesInspectionNumber :: "Dashboard \<Rightarrow> Inspection \<Rightarrow> bool" where
  "matchesInspectionNumber d i \<longleftrightarrow>
     inspectionNumber (columnFilters d) = [] \<or>
     optIncludesLower d (inspection_number i) (inspectionNumber (columnFilters d))"

definition matchesLocation :: "Dashboard \<Rightarrow> Inspection \<Rightarrow> bool" where
  "matchesLocation d i \<longleftrightarrow>
     location (columnFilters d) = [] \<or>
     optIncludesLower d (location_name i) (location (columnFilters d))"

text \<open>
  \<^verbatim>\<open>categories.find(c => c.id === inspection.category_id)\<close> and the name shown for it:
  what \<^verbatim>\<open>t\<close> returns for the key of the form type with the category's own name as the
  default, and the empty string when no category has that id.
\<close>

definition categoryName :: "Dashboard \<Rightarrow> Inspection \<Rightarrow> jsvalue" where
  "categoryName d i =
     (case find (\<lambda>c. cat_id c = category_id i) (categories d) of
        Some c \<Rightarrow> translate d (''categories.'' @ form_type c) (cat_name c)
      | None \<Rightarrow> JString [])"

text \<open>
  The two axes that read a value of \<^verbatim>\<open>t\<close>. The right operand of \<^verbatim>\<open>||\<close> is evaluated
  only when the column filter is not empty, and throws when the value is no string.
\<close>

definition matchesCategoryFilter :: "Dashboard \<Rightarrow> Inspection \<Rightarrow> error + bool" where
  "matchesCategoryFilter d i =
     (if category (columnFilters d) = [] then Inr True
      else lowerIncludes d (categoryName d i) (category (columnFilters d)))"

definition matchesStatusFilter :: "Dashboard \<Rightarrow> Inspection \<Rightarrow> error + bool" where
  "matchesStatusFilter d i =
     (if statusText (columnFilters d) = [] then Inr True
      else lowerIncludes d (getStatusText d (status i)) (statusText (columnFilters d)))"

text \<open>
  \<^verbatim>\<open>inspection.inspection_date || inspection.planned_date\<close>: the left operand unless it
  is \<^verbatim>\<open>null\<close> or the empty string.
\<close>

definition inspectionDate :: "Inspection \<Rightarrow> string option" where
  "inspectionDate i =
     (case inspection_date i of
        Some s \<Rightarrow> if s = [] then planned_date i else Some s
      | None \<Rightarrow> planned_date i)"

definition matchesDateFilter :: "Dashboard \<Rightarrow> Inspection \<Rightarrow> bool" where
  "matchesDateFilter d i \<longleftrightarrow>
     date (columnFilters d) = [] \<or>
     (case inspectionDate i of
        None \<Rightarrow> False
      | Some s \<Rightarrow> s \<noteq> [] \<and> strIncludes (toLocaleDateString d s) (date (columnFilters d)))"

definition matchesFilledBy :: "Dashboard \<Rightarrow> Inspection \<Rightarrow> bool" where
  "matchesFilledBy d i \<longleftrightarrow>
     filledByName (columnFilters d) = [] \<or>
     optIncludesLower d (filled_by_name i) (filledByName (columnFilters d))"

text \<open>
  The callback of \<^verbatim>\<open>inspections.filter\<close>: the nine constants are computed one after
  the other, whatever the earlier ones are, and then joined by \<^verbatim>\<open>&&\<close>.
\<close>

definition passes :: "Dashboard \<Rightarrow> Inspection \<Rightarrow> error + bool" where
  "passes d i =
     (case matchesCategoryFilter d i of
        Inl e \<Rightarrow> Inl e
      | Inr inCategory \<Rightarrow>
          (case matchesStatusFilter d i of
             Inl e \<Rightarrow> Inl e
           | Inr inStatus \<Rightarrow>
               Inr (matchesSearch d i \<and> matchesCategory d i \<and> matchesStatus d i \<and>
                    matchesInspectionNumber d i \<and> matchesLocation d i \<and> inCategory \<and>
                    inStatus \<and> matchesDateFilter d i \<and> matchesFilledBy d i)))"

text \<open>
  \<^verbatim>\<open>Array.prototype.filter\<close>: the elements are visited from the first to the last and
  each one the callback accepts is appended to the result. \<open>arrayFilter\<close> is the filter
  with a callback that cannot throw; with \<open>arrayFilterThrowing\<close> the first exception of
  the callback ends the filter.
\<close>

fun arrayFilter :: "('a \<Rightarrow> bool) \<Rightarrow> 'a list \<Rightarrow> 'a list \<Rightarrow> 'a list" where
  "arrayFilter f acc [] = acc"
| "arrayFilter f acc (x # xs) = arrayFilter f (if f x then acc @ [x] else acc) xs"

fun arrayFilterThrowing ::
    "('a \<Rightarrow> error + bool) \<Rightarrow> 'a list \<Rightarrow> 'a list \<Rightarrow> error + 'a list" where
  "arrayFilterThrowing f acc [] = Inr acc"
| "arrayFilterThrowing f acc (x # xs) =
     (case f x of
        Inl e \<Rightarrow> Inl e
      | Inr keep \<Rightarrow> arrayFilterThrowing f (if keep then acc @ [x] else acc) xs)"

definition getFilteredInspections :: "Dashboard \<Rightarrow> error + Inspection list" where
  "getFilteredInspections d = arrayFilterThrowing (passes d) [] (inspections d)"

text \<open>
  The filter in the words of the specification (4.2). A criterion matches a display
  value when the criterion is empty or occurs in the value, case ignored; an absent value
  matches the empty criterion only. A record passes when the search term matches the
  location name or the inspection number, the selected category and the selected status
  are empty or equal to the record's, and each column filter matches its display value:
  the inspection number, the location name, the resolved category name, the resolved
  status label, the formatted date of \<^verbatim>\<open>inspection_date\<close> or else of
  \<^verbatim>\<open>planned_date\<close>, the name of who filled the form.
\<close>

definition matchIgnoringCase :: "Dashboard \<Rightarrow> string \<Rightarrow> string option \<Rightarrow> bool" where
  "matchIgnoringCase d criterion display \<longleftrightarrow>
     criterion = [] \<or>
     (case display of
        None \<Rightarrow> False
      | Some v \<Rightarrow> strIncludes (toLowerCase d v) (toLowerCase d criterion))"

definition displayText :: "jsvalue \<Rightarrow> string option" where
  "displayText v = (case v of JString s \<Rightarrow> Some s | JOther \<Rightarrow> None)"

definition dateText :: "Dashboard \<Rightarrow> Inspection \<Rightarrow> string option" where
  "dateText d i =
     (case inspectionDate i of
        None \<Rightarrow> None
      | Some s \<Rightarrow> if s = [] then None else Some (toLocaleDateString d s))"

definition passesSpec :: "Dashboard \<Rightarrow> Inspection \<Rightarrow> bool" where
  "passesSpec d i \<longleftrightarrow>
     (matchIgnoringCase d (searchTerm d) (location_name i) \<or>
      matchIgnoringCase d (searchTerm d) (inspection_number i)) \<and>
     (selectedCategory d = [] \<or> category_id i = selectedCategory d) \<and>
     (selectedStatus d = [] \<or> status i = selectedStatus d) \<and>
     matchIgnoringCase d (inspectionNumber (columnFilters d)) (inspection_number i) \<and>
     matchIgnoringCase d (location (columnFilters d)) (location_name i) \<and>
     matchIgnoringCase d (category (columnFilters d)) (displayText (categoryName d i)) \<and>
     matchIgnoringCase d (statusText (columnFilters d))
       (displayText (getStatusText d (status i))) \<and>
     matchIgnoringCase d (date (columnFilters d)) (dateText d i) \<and>
     matchIgnoringCase d (filledByName (columnFilters d)) (filled_by_name i)"

definition filterRecordsSpec :: "Dashboard \<Rightarrow> Inspection list" where
  "filterRecordsSpec d = filter (passesSpec d) (inspections d)"

subsection \<open>Aggregation\<close>

record StatusCounts =
  total :: nat
  pending :: nat
  completed :: nat
  submitted :: nat

definition getStatusCounts :: "Dashboard \<Rightarrow> StatusCounts" where
  "getStatusCounts d =
     \<lparr> total = length (inspections d),
       pending = length (arrayFilter
         (\<lambda>i. status i \<in> set [''planned'', ''in_progress'', ''draft'']) [] (inspections d)),
       completed = length (arrayFilter (\<lambda>i. status i = ''approved'') [] (inspections d)),
       submitted = length (arrayFilter (\<lambda>i. status i = ''submitted'') [] (inspections d)) \<rparr>"

text \<open>
  The rate is computed in JavaScript Numbers, that is in IEEE 754 binary64 with
  round-to-nearest, ties-to-even. The values are modelled by the rationals they denote.
  A finite positive double is \<open>m * 2 ^ e\<close> with \<open>m < 2 ^ 53\<close> and \<open>- 1074 \<le> e\<close>, and
  \<open>2 ^ 52 \<le> m\<close> unless \<open>e = - 1074\<close>; \<open>toDouble x\<close> is the double nearest to \<open>x\<close>. Overflow
  to infinity (from \<open>2 ^ 1024\<close> on) is outside the model: no value of the rate comes near.
\<close>

definition pow2 :: "int \<Rightarrow> rat" where
  "pow2 k = (if 0 \<le> k then 2 ^ nat k else 1 / 2 ^ nat (- k))"

definition roundHalfEven :: "rat \<Rightarrow> int" where
  "roundHalfEven x =
     (let f = \<lfloor>x\<rfloor>; r = x - of_int f
      in if r < 1 / 2 then f else if 1 / 2 < r then f + 1 else if even f then f else f + 1)"

text \<open>The binary exponent of a positive rational: \<open>2 ^ ilog2 x \<le> x < 2 ^ (ilog2 x + 1)\<close>.\<close>

definition ilog2 :: "rat \<Rightarrow> int" where
  "ilog2 x =
     (let (p, q) = quotient_of x; k = bitlen p - bitlen q
      in if pow2 k \<le> x then k else k - 1)"

definition toDouble :: "rat \<Rightarrow> rat" where
  "toDouble x =
     (if x \<le> 0 then 0
      else let e = max (ilog2 x - 52) (- 1074)
           in of_int (roundHalfEven (x / pow2 e)) * pow2 e)"

text \<open>
  \<^verbatim>\<open>Math.round\<close>: the nearest integer, the one closer to plus infinity on a tie.
\<close>

definition mathRound :: "rat \<Rightarrow> int" where
  "mathRound x = \<lfloor>x + 1 / 2\<rfloor>"

text \<open>
  \<^verbatim>\<open>Math.round((completed / total) * 100)\<close>: the quotient is rounded to a double, then
  the product is. The two counts are array lengths, below \<open>2 ^ 32\<close>, hence exact.
\<close>

definition getCompletionRate :: "Dashboard \<Rightarrow> int" where
  "getCompletionRate d =
     (let c = getStatusCounts d
      in if total c = 0 then 0
         else mathRound
           (toDouble (toDouble (of_nat (completed c) / of_nat (total c)) * 100)))"

subsection \<open>Lifecycle handlers\<close>

text \<open>What a handler shows or asks for, in the order it does.\<close>

datatype ui_event =
  Alert string
| ConsoleError string
| SetIsLoading bool
| ReassignCall string string
| FetchAllData
| FetchInspectionsData

text \<open>
  The request \<^verbatim>\<open>from('fims_inspections').update(patch).eq('id', inspectionId)\<close> on the
  rows of the table: the patch is applied to every row with that id.
\<close>

definition updateWhereId ::
    "(Inspection \<Rightarrow> Inspection) \<Rightarrow> string \<Rightarrow> Inspection list \<Rightarrow> Inspection list" where
  "updateWhereId patch inspectionId rows =
     map (\<lambda>r. if insp_id r = inspectionId then patch r else r) rows"

text \<open>
  \<^verbatim>\<open>handleCompleteInspection\<close>. The client is absent (\<^verbatim>\<open>!supabase\<close>) or holds the table;
  \<open>storeError\<close> is the error the backend answers the update with, if any, and a refused
  update leaves the table as it was.
\<close>

definition handleCompleteInspection ::
    "Inspection list option \<Rightarrow> string option \<Rightarrow> string \<Rightarrow>
     Inspection list option \<times> ui_event list" where
  "handleCompleteInspection supabase storeError inspectionId =
     (case supabase of
        None \<Rightarrow> (None, [])
      | Some rows \<Rightarrow>
          (case storeError of
             Some msg \<Rightarrow>
               (Some rows,
                [ConsoleError ''Error completing inspection:'',
                 Alert (''Error completing inspection: '' @ msg)])
           | None \<Rightarrow>
               (Some (updateWhereId (\<lambda>r. r\<lparr>status := ''approved''\<rparr>) inspectionId rows),
                [FetchInspectionsData, Alert ''Inspection marked as completed''])))"

text \<open>The state of the revisit dialog.\<close>

record Revisit =
  revisitInspectionId :: string
  selectedInspector :: string
  showRevisitModal :: bool
  isLoading :: bool

definition handleRevisitInspection :: "Revisit \<Rightarrow> string \<Rightarrow> Revisit" where
  "handleRevisitInspection s inspectionId =
     s\<lparr>revisitInspectionId := inspectionId, selectedInspector := [], showRevisitModal := True\<rparr>"

text \<open>
  \<^verbatim>\<open>handleConfirmRevisit\<close>. The service function \<^verbatim>\<open>reassignInspection\<close> is a parameter:
  it is given the record id, the inspector id and the table, and returns the message of
  the error it throws, if any, with the table it leaves. \<^verbatim>\<open>!selectedInspector\<close> holds of
  the empty string only.
\<close>

definition handleConfirmRevisit ::
    "(string \<Rightarrow> string \<Rightarrow> Inspection list \<Rightarrow> string option \<times> Inspection list) \<Rightarrow>
     Revisit \<Rightarrow> Inspection list \<Rightarrow> Revisit \<times> Inspection list \<times> ui_event list" where
  "handleConfirmRevisit reassignInspection s rows =
     (if selectedInspector s = [] then
        (s, rows, [Alert ''Please select an inspector for revisit''])
      else
        (case reassignInspection (revisitInspectionId s) (selectedInspector s) rows of
           (None, rows') \<Rightarrow>
             (s\<lparr>showRevisitModal := False, isLoading := False\<rparr>, rows',
              [SetIsLoading True,
               ReassignCall (revisitInspectionId s) (selectedInspector s),
               Alert ''Inspection assigned for revisit successfully'',
               FetchAllData, SetIsLoading False])
         | (Some msg, rows') \<Rightarrow>
             (s\<lparr>isLoading := False\<rparr>, rows',
              [SetIsLoading True,
               ReassignCall (revisitInspectionId s) (selectedInspector s),
               ConsoleError ''Error sending for revisit:'',
               Alert (''Error sending for revisit: '' @ msg), SetIsLoading False])))"

text \<open>The store calls among the events of a handler.\<close>

fun storeCalls :: "ui_event list \<Rightarrow> ui_event list" where
  "storeCalls [] = []"
| "storeCalls (ReassignCall i u # es) = ReassignCall i u # storeCalls es"
| "storeCalls (FetchAllData # es) = FetchAllData # storeCalls es"
| "storeCalls (FetchInspectionsData # es) = FetchInspectionsData # storeCalls es"
| "storeCalls (e # es) = storeCalls es"

subsection \<open>The status enumeration and sample data\<close>

text \<open>The eight states of an inspection.\<close>

definition statuses :: "string list" where
  "statuses =
     [''draft'', ''planned'', ''in_progress'', ''submitted'', ''under_review'', ''approved'',
      ''rejected'', ''reassigned'']"

text \<open>The labels of the \<^verbatim>\<open>case\<close> clauses of \<^verbatim>\<open>getStatusColor\<close>.\<close>

definition caseLabels :: "string list" where
  "caseLabels =
     [''approved'', ''completed'', ''submitted'', ''under_review'', ''draft'', ''pending'',
      ''rejected'', ''reassigned'']"

definition sampleInspection :: "string \<Rightarrow> string \<Rightarrow> Inspection" where
  "sampleInspection i st =
     \<lparr> insp_id = i, inspection_number = Some (''INS-'' @ i), category_id = ''cat-1'',
       inspector_id = ''user-7'', location_name = Some ''Ward 12 Anganwadi'',
       latitude = None, longitude = None, address = None,
       planned_date = Some ''2024-01-15T12:00:00Z'', inspection_date = None, status = st,
       form_data = ''{}'', is_compliant = None, requires_revisit = False,
       created_at = ''2024-01-01T00:00:00Z'', updated_at = ''2024-01-01T00:00:00Z'',
       filled_by_name = Some ''Asha'', photos = [] \<rparr>"

definition noColumnFilters :: ColumnFilters where
  "noColumnFilters =
     \<lparr> inspectionNumber = [], location = [], category = [], statusText = [], date = [],
       filledByName = [] \<rparr>"

definition sampleCategories :: "Category list" where
  "sampleCategories =
     [\<lparr> cat_id = ''cat-1'', cat_name = ''Anganwadi'', name_marathi = ''Anganwadi (mr)'',
        cat_description = [], form_type = ''anganwadi'', is_active = True \<rparr>]"

definition sampleBundle :: "string \<rightharpoonup> string" where
  "sampleBundle =
     map_of
       [(''statuses.draft'', ''Draft''), (''statuses.planned'', ''Planned''),
        (''statuses.in_progress'', ''In Progress''), (''statuses.submitted'', ''Submitted''),
        (''statuses.under_review'', ''Under Review''), (''statuses.approved'', ''Approved''),
        (''statuses.rejected'', ''Rejected''), (''statuses.reassigned'', ''Reassigned'')]"

text \<open>
  What the \<^verbatim>\<open>t\<close> of i18next returns, for the language \<^verbatim>\<open>en\<close> and the bundle above,
  on the keys the examples use: the bundle's text for a key it holds, and the default
  value for a key it does not resolve. The lookup reads the last segment of the key as a
  property of a JavaScript object, so that \<^verbatim>\<open>statuses.constructor\<close> ends on the function
  every object inherits, which is returned as it is and is no string, and
  \<^verbatim>\<open>statuses.__proto__\<close> ends on an object, which \<^verbatim>\<open>t\<close> reports by a message in place
  of the default.
\<close>

definition sampleT :: "string \<Rightarrow> string \<Rightarrow> jsvalue" where
  "sampleT key defaultValue =
     (case sampleBundle key of
        Some v \<Rightarrow> JString v
      | None \<Rightarrow>
          if key = ''statuses.constructor'' then JOther
          else if key = ''statuses.__proto__'' then
            JString ''key 'statuses.__proto__ (en)' returned an object instead of string.''
          else JString defaultValue)"


text \<open>
  What \<^verbatim>\<open>new Date(s).toLocaleDateString()\<close> prints in an en-US browser for the strings
  used below: a timestamp at noon UTC, and text that is no date.
\<close>

definition sampleLocale :: "string \<Rightarrow> string" where
  "sampleLocale s = (if s = ''2024-01-15T12:00:00Z'' then ''1/15/2024'' else ''Invalid Date'')"

text \<open>A dashboard over the given records with every criterion empty.\<close>

definition sampleDashboard :: "Inspection list \<Rightarrow> Dashboard" where
  "sampleDashboard rs =
     \<lparr> inspections = rs, categories = sampleCategories, selectedCategory = [],
       selectedStatus = [], searchTerm = [], columnFilters = noColumnFilters,
       translate = sampleT, toLowerCase = asciiLower, toUpperCase = asciiUpper,
       toLocaleDateString = sampleLocale \<rparr>"

definition scenarioRecords :: "Inspection list" where
  "scenarioRecords =
     [sampleInspection ''1'' ''draft'', sampleInspection ''2'' ''approved'',
      sampleInspection ''3'' ''submitted'', sampleInspection ''4'' ''approved'']"

text \<open>
  Modelled from the spec: the service function \<^verbatim>\<open>reassignInspection\<close> of
  \<^verbatim>\<open>services/fimsService\<close>, which is not among the sources. It sets the inspector of the
  record and returns the record to the in-progress state.
\<close>

definition reassignInspectionSpec ::
    "string \<Rightarrow> string \<Rightarrow> Inspection list \<Rightarrow> string option \<times> Inspection list" where
  "reassignInspectionSpec inspectionId inspectorId rows =
     (None,
      updateWhereId (\<lambda>r. r\<lparr>inspector_id := inspectorId, status := ''in_progress''\<rparr>)
        inspectionId rows)"

text \<open>
  The rate in the words of the specification: the percentage of completed records,
  rounded half up in exact arithmetic, and 0 for the empty set.
\<close>

definition completionRateSpec :: "nat \<Rightarrow> nat \<Rightarrow> int" where
  "completionRateSpec c n =
     (if n = 0 then 0 else \<lfloor>(of_nat c / of_nat n) * 100 + (1 / 2 :: rat)\<rfloor>)"

text \<open>The double that \<^verbatim>\<open>Math.round\<close> is given.\<close>

definition doublePercent :: "nat \<Rightarrow> nat \<Rightarrow> rat" where
  "doublePercent c n = toDouble (toDouble (of_nat c / of_nat n) * 100)"

text \<open>Forty records, twenty-three of them approved: exactly 57.5 percent.\<close>

definition tieRecords :: "Inspection list" where
  "tieRecords =
     map (\<lambda>k. sampleInspection (replicate k (CHR ''a'')) ''approved'') [1..<24] @
     map (\<lambda>k. sampleInspection (replicate k (CHR ''d'')) ''draft'') [1..<18]"

text \<open>A record whose only date is text that is no date, and a date filter in lower case.\<close>

definition invalidDateRecord :: Inspection where
  "invalidDateRecord = (sampleInspection ''5'' ''draft'')\<lparr>planned_date := Some ''not-a-date''\<rparr>"

definition dateFilterDashboard :: "string \<Rightarrow> Dashboard" where
  "dateFilterDashboard f =
     (sampleDashboard [invalidDateRecord])\<lparr>columnFilters := noColumnFilters\<lparr>date := f\<rparr>\<rparr>"

section \<open>Properties\<close>

subsection \<open>Auxiliary facts\<close>

lemma arrayFilter_eq: "arrayFilter f acc xs = acc @ filter f xs"
  by (induction xs arbitrary: acc) simp_all

lemma arrayFilterThrowing_eq:
  "(\<And>x. x \<in> set xs \<Longrightarrow> f x = Inr (g x)) \<Longrightarrow>
     arrayFilterThrowing f acc xs = Inr (acc @ filter g xs)"
  by (induction xs arbitrary: acc) simp_all

lemma strIncludes_Nil: "strIncludes h []"
  by (cases h) simp_all

text \<open>\<open>strIncludes\<close> is the substring relation.\<close>

lemma strIncludes_iff: "strIncludes h n \<longleftrightarrow> (\<exists>p s. h = p @ n @ s)"
proof (induction h)
  case Nil
  then show ?case by simp
next
  case (Cons c cs)
  have "(\<exists>p s. c # cs = p @ n @ s) \<longleftrightarrow> prefix n (c # cs) \<or> (\<exists>p s. cs = p @ n @ s)"
    using sublist_Cons_right [of n c cs] by (simp add: sublist_def)
  with Cons show ?case by simp
qed

lemma counts_le:
  "length (filter (\<lambda>i. status i \<in> set [''planned'', ''in_progress'', ''draft'']) xs)
   + length (filter (\<lambda>i. status i = ''approved'') xs)
   + length (filter (\<lambda>i. status i = ''submitted'') xs) \<le> length xs"
  by (induction xs) auto

lemma counts_eq_iff:
  "length (filter (\<lambda>i. status i \<in> set [''planned'', ''in_progress'', ''draft'']) xs)
   + length (filter (\<lambda>i. status i = ''approved'') xs)
   + length (filter (\<lambda>i. status i = ''submitted'') xs) = length xs
   \<longleftrightarrow> (\<forall>i \<in> set xs. status i \<in> {''planned'', ''in_progress'', ''draft'', ''approved'', ''submitted''})"
proof (induction xs)
  case Nil
  then show ?case by simp
next
  case (Cons x xs)
  note le = counts_le[of xs]
  show ?case using Cons le by (auto split: if_splits)
qed

subsection \<open>Auxiliary facts on doubles\<close>

lemma pow2_powi: "pow2 k = 2 powi k"
  by (simp add: pow2_def power_int_def inverse_eq_divide power_one_over)

lemma pow2_pos: "0 < pow2 k"
  by (simp add: pow2_powi)

lemma pow2_mono: "a \<le> b \<Longrightarrow> pow2 a \<le> pow2 b"
  by (simp add: pow2_powi power_int_increasing)

lemma pow2_le_imp_less: "pow2 a \<le> x \<Longrightarrow> x < pow2 b \<Longrightarrow> a < b"
proof (rule ccontr)
  assume 1: "pow2 a \<le> x" and 2: "x < pow2 b" and "\<not> a < b"
  then have "pow2 b \<le> pow2 a" by (simp add: pow2_mono)
  with 1 2 show False by simp
qed

lemma roundHalfEven_le: "x \<le> of_int K \<Longrightarrow> roundHalfEven x \<le> K"
proof -
  assume a: "x \<le> of_int K"
  then have f: "\<lfloor>x\<rfloor> \<le> K" by (simp add: floor_le_iff)
  show ?thesis
  proof (cases "\<lfloor>x\<rfloor> = K")
    case True
    with a have "x - of_int \<lfloor>x\<rfloor> \<le> 0" by simp
    then have "x - of_int \<lfloor>x\<rfloor> < 1 / 2" by linarith
    with True show ?thesis by (simp add: roundHalfEven_def Let_def)
  next
    case False
    with f have "\<lfloor>x\<rfloor> + 1 \<le> K" by simp
    with f show ?thesis by (simp add: roundHalfEven_def Let_def)
  qed
qed

lemma roundHalfEven_nonneg: "0 \<le> x \<Longrightarrow> 0 \<le> roundHalfEven x"
proof -
  assume "0 \<le> x"
  then have "0 \<le> \<lfloor>x\<rfloor>" by simp
  then show ?thesis by (simp add: roundHalfEven_def Let_def)
qed

lemma roundHalfEven_near: "\<bar>of_int (roundHalfEven x) - x\<bar> \<le> 1 / 2"
proof -
  have "of_int \<lfloor>x\<rfloor> \<le> x" "x < of_int \<lfloor>x\<rfloor> + 1" by linarith+
  then show ?thesis
    by (simp add: roundHalfEven_def Let_def)
qed

lemma ilog2_lower:
  assumes "0 < x"
  shows "pow2 (ilog2 x) \<le> x"
proof -
  obtain p q where pq: "quotient_of x = (p, q)" by (cases "quotient_of x")
  then have q: "0 < q" by (rule quotient_of_denom_pos)
  from pq have x: "x = of_int p / of_int q" by (rule quotient_of_div)
  with assms q have p: "0 < p" by (simp add: zero_less_divide_iff)
  let ?k = "bitlen p - bitlen q"
  show ?thesis
  proof (cases "pow2 ?k \<le> x")
    case True
    then show ?thesis by (simp add: ilog2_def pq)
  next
    case False
    have bp: "1 \<le> bitlen p" using p by (simp add: bitlen_alt_def) 
    have bq: "1 \<le> bitlen q" using q by (simp add: bitlen_alt_def)
    from bitlen_bounds [OF p] have "(2::int) ^ nat (bitlen p - 1) \<le> p" by simp
    then have "(of_int ((2::int) ^ nat (bitlen p - 1)) :: rat) \<le> of_int p"
      by (simp only: of_int_le_iff)
    then have lp: "pow2 (bitlen p - 1) \<le> of_int p"
      using bp by (simp add: pow2_def)
    from bitlen_bounds [OF q] have "q < (2::int) ^ nat (bitlen q)" by simp
    then have "(of_int q :: rat) < of_int ((2::int) ^ nat (bitlen q))"
      by (simp only: of_int_less_iff)
    then have uq: "of_int q < pow2 (bitlen q)"
      using bq by (simp add: pow2_def)
    have "pow2 (?k - 1) = pow2 (bitlen p - 1) / pow2 (bitlen q)"
      by (simp add: pow2_powi power_int_diff)
    also have "\<dots> \<le> of_int p / pow2 (bitlen q)"
      using lp pow2_pos [of "bitlen q"] by (simp add: divide_right_mono)
    also have "\<dots> \<le> of_int p / of_int q"
      using uq p q by (simp add: frac_le)
    finally have "pow2 (?k - 1) \<le> x" by (simp add: x)
    with False show ?thesis by (simp add: ilog2_def pq)
  qed
qed

lemma ilog2_upper:
  assumes "0 < x"
  shows "x < pow2 (ilog2 x + 1)"
proof -
  obtain p q where pq: "quotient_of x = (p, q)" by (cases "quotient_of x")
  then have q: "0 < q" by (rule quotient_of_denom_pos)
  from pq have x: "x = of_int p / of_int q" by (rule quotient_of_div)
  with assms q have p: "0 < p" by (simp add: zero_less_divide_iff)
  let ?k = "bitlen p - bitlen q"
  show ?thesis
  proof (cases "pow2 ?k \<le> x")
    case False
    then show ?thesis by (simp add: ilog2_def pq)
  next
    case True
    have bp: "1 \<le> bitlen p" using p by (simp add: bitlen_alt_def) 
    have bq: "1 \<le> bitlen q" using q by (simp add: bitlen_alt_def)
    from bitlen_bounds [OF q] have "(2::int) ^ nat (bitlen q - 1) \<le> q" by simp
    then have "(of_int ((2::int) ^ nat (bitlen q - 1)) :: rat) \<le> of_int q"
      by (simp only: of_int_le_iff)
    then have lq: "pow2 (bitlen q - 1) \<le> of_int q"
      using bq by (simp add: pow2_def)
    from bitlen_bounds [OF p] have "p < (2::int) ^ nat (bitlen p)" by simp
    then have "(of_int p :: rat) < of_int ((2::int) ^ nat (bitlen p))"
      by (simp only: of_int_less_iff)
    then have up: "of_int p < pow2 (bitlen p)"
      using bp by (simp add: pow2_def)
    have "x = of_int p / of_int q" by (rule x)
    also have "\<dots> < pow2 (bitlen p) / of_int q"
      using up q by (simp add: divide_strict_right_mono)
    also have "\<dots> \<le> pow2 (bitlen p) / pow2 (bitlen q - 1)"
      using lq pow2_pos [of "bitlen q - 1"] pow2_pos [of "bitlen p"] by (simp add: frac_le)
    also have "\<dots> = pow2 (bitlen p - (bitlen q - 1))"
      by (simp add: pow2_powi power_int_diff)
    also have "bitlen p - (bitlen q - 1) = ?k + 1"
      by simp
    finally show ?thesis using True by (simp add: ilog2_def pq)
  qed
qed


lemma toDouble_nonneg: "0 \<le> toDouble x"
proof (cases "x \<le> 0")
  case True
  then show ?thesis by (simp add: toDouble_def)
next
  case False
  let ?e = "max (ilog2 x - 52) (- 1074)"
  from False have "0 \<le> x / pow2 ?e" using pow2_pos [of ?e] by simp
  then have "0 \<le> roundHalfEven (x / pow2 ?e)" by (rule roundHalfEven_nonneg)
  then have "(0::rat) \<le> of_int (roundHalfEven (x / pow2 ?e)) * pow2 ?e"
    using pow2_pos [of ?e] by simp
  with False show ?thesis by (simp add: toDouble_def Let_def)
qed

lemma toDouble_exponent:
  assumes "0 < x" and "x < pow2 (l + 1)" and "- 1022 \<le> l"
  shows "max (ilog2 x - 52) (- 1074) \<le> l - 52"
proof -
  from ilog2_lower [OF assms(1)] assms(2) have "ilog2 x < l + 1"
    by (rule pow2_le_imp_less)
  with assms(3) show ?thesis by simp
qed

text \<open>An integer bound that is a multiple of the unit in the last place is kept.\<close>

lemma toDouble_le:
  assumes "0 < x" and "x \<le> of_int n" and "x < pow2 53"
  shows "toDouble x \<le> of_int n"
proof -
  let ?e = "max (ilog2 x - 52) (- 1074)"
  from toDouble_exponent [OF assms(1), of 52] assms(3) have e: "?e \<le> 0" by simp
  then have p: "pow2 ?e = 1 / 2 ^ nat (- ?e)"
    by (cases "?e = 0") (simp_all add: pow2_def)
  have "x / pow2 ?e = x * 2 ^ nat (- ?e)" by (simp add: p)
  also have "\<dots> \<le> of_int n * 2 ^ nat (- ?e)"
    using assms(2) by (simp add: mult_right_mono)
  also have "\<dots> = of_int (n * 2 ^ nat (- ?e))" by simp
  finally have "roundHalfEven (x / pow2 ?e) \<le> n * 2 ^ nat (- ?e)"
    by (rule roundHalfEven_le)
  then have "(of_int (roundHalfEven (x / pow2 ?e)) :: rat) \<le> of_int (n * 2 ^ nat (- ?e))"
    by (simp only: of_int_le_iff)
  then have "of_int (roundHalfEven (x / pow2 ?e)) * pow2 ?e \<le> of_int (n * 2 ^ nat (- ?e)) * pow2 ?e"
    using pow2_pos [of ?e] by (simp add: mult_right_mono)
  also have "of_int (n * 2 ^ nat (- ?e)) * pow2 ?e = of_int n"
    by (simp add: p)
  finally show ?thesis using assms(1) by (simp add: toDouble_def Let_def)
qed

lemma toDouble_error:
  assumes "0 < x" and "x < pow2 (l + 1)" and "- 1022 \<le> l"
  shows "\<bar>toDouble x - x\<bar> \<le> pow2 (l - 53)"
proof -
  let ?e = "max (ilog2 x - 52) (- 1074)"
  let ?m = "x / pow2 ?e"
  have e: "?e \<le> l - 52" using assms by (rule toDouble_exponent)
  have "toDouble x - x = (of_int (roundHalfEven ?m) - ?m) * pow2 ?e"
    using assms(1) pow2_pos [of ?e] by (simp add: toDouble_def Let_def algebra_simps)
  then have "\<bar>toDouble x - x\<bar> = \<bar>of_int (roundHalfEven ?m) - ?m\<bar> * pow2 ?e"
    using pow2_pos [of ?e] by (simp add: abs_mult)
  also have "\<dots> \<le> (1 / 2) * pow2 ?e"
    using roundHalfEven_near [of ?m] pow2_pos [of ?e] by (simp add: mult_right_mono)
  also have "\<dots> \<le> (1 / 2) * pow2 (l - 52)"
    using pow2_mono [OF e] by simp
  also have "\<dots> = pow2 (l - 53)"
    by (simp add: pow2_powi power_int_diff)
  finally show ?thesis .
qed

text \<open>
  Above the subnormal range the scaled value that \<open>toDouble\<close> rounds has 53 bits.
\<close>

lemma toDouble_significand:
  assumes "0 < x"
  shows "pow2 52 \<le> x / pow2 (ilog2 x - 52)" and "x / pow2 (ilog2 x - 52) < pow2 53"
proof -
  have d: "x / pow2 (ilog2 x - 52) = x / pow2 (ilog2 x) * pow2 52"
    by (simp add: pow2_powi power_int_diff)
  have u: "pow2 (ilog2 x + 1) = pow2 (ilog2 x) * 2"
    by (simp add: pow2_powi power_int_add)
  from ilog2_lower [OF assms] have "1 \<le> x / pow2 (ilog2 x)"
    using pow2_pos [of "ilog2 x"] by (simp add: le_divide_eq)
  then have "1 * pow2 52 \<le> x / pow2 (ilog2 x) * pow2 52"
    using pow2_pos [of 52] by (intro mult_right_mono) simp_all
  then show "pow2 52 \<le> x / pow2 (ilog2 x - 52)" by (simp only: d mult_1)
  from ilog2_upper [OF assms] have "x / pow2 (ilog2 x) < 2"
    using pow2_pos [of "ilog2 x"] by (simp add: u divide_less_eq mult.commute)
  then have "x / pow2 (ilog2 x) * pow2 52 < 2 * pow2 52"
    using pow2_pos [of 52] by (intro mult_strict_right_mono) simp_all
  also have "2 * pow2 52 = pow2 53" by (simp add: pow2_def)
  finally show "x / pow2 (ilog2 x - 52) < pow2 53" by (simp only: d)
qed

lemma doublePercent_zero: "doublePercent 0 n = 0"
  by (simp add: doublePercent_def toDouble_def)

lemma pow2_numeral: "pow2 53 = 2 ^ 53" "pow2 1 = 2" "pow2 7 = 128" "pow2 (- 53) = 1 / 2 ^ 53"
  "pow2 (- 47) = 1 / 2 ^ 47"
  by (simp_all add: pow2_def)

lemma abs_scale_100: "\<bar>a * 100 - b * 100\<bar> = \<bar>a - b\<bar> * (100 :: rat)"
proof -
  have "\<bar>a * 100 - b * 100\<bar> = \<bar>(a - b) * 100\<bar>" by (simp add: left_diff_distrib)
  also have "\<dots> = \<bar>a - b\<bar> * \<bar>100\<bar>" by (rule abs_mult)
  finally show ?thesis by simp
qed

lemma abs_diff_via: "\<bar>a - c\<bar> \<le> \<bar>a - b\<bar> + \<bar>b - (c :: rat)\<bar>"
  by linarith

lemma quotient_bounds:
  assumes "0 < c" and "c \<le> n"
  shows "0 < toDouble (of_nat c / of_nat n) * 100 \<or> toDouble (of_nat c / of_nat n) = 0"
    and "toDouble (of_nat c / of_nat n) \<le> 1"
    and "\<bar>toDouble (of_nat c / of_nat n) - of_nat c / of_nat n\<bar> \<le> 1 / 2 ^ 53"
proof -
  let ?q = "of_nat c / of_nat n :: rat"
  from assms have q: "0 < ?q" "?q \<le> 1" by simp_all
  from toDouble_nonneg [of ?q]
  show "0 < toDouble ?q * 100 \<or> toDouble ?q = 0" by auto
  have "?q \<le> of_int 1" using q by simp
  moreover have "?q < pow2 53" using q by (simp add: pow2_numeral)
  ultimately have "toDouble ?q \<le> of_int 1" using q(1) by (intro toDouble_le)
  then show "toDouble ?q \<le> 1" by simp
  have "?q < pow2 (0 + 1)" using q by (simp add: pow2_numeral)
  from toDouble_error [OF q(1) this] show "\<bar>toDouble ?q - ?q\<bar> \<le> 1 / 2 ^ 53"
    by (simp add: pow2_numeral)
qed

lemma doublePercent_bounds:
  assumes "c \<le> n" and "0 < n"
  shows "0 \<le> doublePercent c n" and "doublePercent c n \<le> 100"
    and "\<bar>doublePercent c n - of_nat c / of_nat n * 100\<bar> \<le> 3 / 2 ^ 47"
proof -
  show "0 \<le> doublePercent c n" by (simp add: doublePercent_def toDouble_nonneg)
  let ?q = "of_nat c / of_nat n :: rat"
  let ?y = "toDouble ?q * 100"
  show "doublePercent c n \<le> 100"
  proof (cases "0 < c \<and> 0 < ?y")
    case True
    with assms quotient_bounds(2) [of c n] have y: "?y \<le> of_int 100" by simp
    then have "?y < pow2 53" by (simp add: pow2_numeral)
    with True y have "toDouble ?y \<le> of_int 100" by (intro toDouble_le) simp_all
    then show ?thesis by (simp add: doublePercent_def)
  next
    case False
    then have "toDouble ?y = 0"
      by (auto simp add: toDouble_def)
    then show ?thesis by (simp add: doublePercent_def)
  qed
  show "\<bar>doublePercent c n - ?q * 100\<bar> \<le> 3 / 2 ^ 47"
  proof (cases "0 < c")
    case False
    then show ?thesis by (simp add: doublePercent_zero)
  next
    case True
    note qb = quotient_bounds [OF True assms(1)]
    have e1: "\<bar>?y - ?q * 100\<bar> \<le> 100 / 2 ^ 53"
    proof -
      have "\<bar>?y - ?q * 100\<bar> = \<bar>toDouble ?q - ?q\<bar> * 100"
        by (rule abs_scale_100)
      also have "\<dots> \<le> (1 / 2 ^ 53) * 100" using qb(3) by (intro mult_right_mono) simp_all
      finally show ?thesis by simp
    qed
    have e2: "\<bar>toDouble ?y - ?y\<bar> \<le> 1 / 2 ^ 47"
    proof (cases "0 < ?y")
      case False
      with qb(1) have "toDouble ?q = 0" by auto
      then show ?thesis by (simp add: toDouble_def)
    next
      case y: True
      from qb(2) have "?y < pow2 (6 + 1)" by (simp add: pow2_numeral)
      from toDouble_error [OF y this] show ?thesis by (simp add: pow2_numeral)
    qed
    have "\<bar>doublePercent c n - ?q * 100\<bar> \<le> \<bar>toDouble ?y - ?y\<bar> + \<bar>?y - ?q * 100\<bar>"
      unfolding doublePercent_def by (rule abs_diff_via)
    also have "\<dots> \<le> 1 / 2 ^ 47 + 100 / 2 ^ 53" using e1 e2 by linarith
    also have "\<dots> \<le> 3 / 2 ^ 47" by simp
    finally show ?thesis .
  qed
qed

lemma int_over_pos:
  fixes k :: int and b :: rat
  assumes "0 < of_int k / b" and "0 < b"
  shows "1 / b \<le> of_int k / b"
proof -
  from assms have "0 < (of_int k :: rat)" by (simp add: zero_less_divide_iff)
  then have "0 < k" by (simp only: of_int_0_less_iff)
  then have "1 \<le> k" by simp
  then have "(1 :: rat) \<le> of_int k" by (simp only: of_int_1_le_iff)
  then show ?thesis using assms(2) by (simp only: divide_right_mono less_imp_le)
qed

lemma half_grid:
  fixes m :: int and c n :: nat
  assumes n: "0 < n" and pos: "0 < of_int m - (of_nat c / of_nat n * 100 + 1 / 2 :: rat)"
  shows "1 / (2 * of_nat n) \<le> of_int m - (of_nat c / of_nat n * 100 + 1 / 2 :: rat)"
proof -
  define k where "k = 2 * int n * m - 200 * int c - int n"
  have eq: "of_int m - (of_nat c / of_nat n * 100 + 1 / 2 :: rat) = of_int k / (2 * of_nat n)"
    using n by (simp add: k_def field_simps)
  from pos have "0 < (of_int k :: rat) / (2 * of_nat n)" unfolding eq .
  moreover have "0 < (2 * of_nat n :: rat)" using n by simp
  ultimately have "1 / (2 * of_nat n) \<le> (of_int k :: rat) / (2 * of_nat n)"
    by (rule int_over_pos)
  then show ?thesis unfolding eq .
qed

lemma half_grid':
  fixes m :: int and c n :: nat
  assumes n: "0 < n" and pos: "0 < (of_nat c / of_nat n * 100 + 1 / 2 :: rat) - of_int m"
  shows "1 / (2 * of_nat n) \<le> (of_nat c / of_nat n * 100 + 1 / 2 :: rat) - of_int m"
proof -
  define k where "k = 200 * int c + int n - 2 * int n * m"
  have eq: "(of_nat c / of_nat n * 100 + 1 / 2 :: rat) - of_int m = of_int k / (2 * of_nat n)"
    using n by (simp add: k_def field_simps)
  from pos have "0 < (of_int k :: rat) / (2 * of_nat n)" unfolding eq .
  moreover have "0 < (2 * of_nat n :: rat)" using n by simp
  ultimately have "1 / (2 * of_nat n) \<le> (of_int k :: rat) / (2 * of_nat n)"
    by (rule int_over_pos)
  then show ?thesis unfolding eq .
qed

lemma grid_wide:
  assumes "0 < n" and "n < 2 ^ 44"
  shows "(3 :: rat) / 2 ^ 47 < 1 / (2 * of_nat n)"
proof -
  from assms(2) have "(of_nat n :: rat) < of_nat (2 ^ 44)" by (simp only: of_nat_less_iff)
  then have "2 * (of_nat n :: rat) < 2 ^ 45" by simp
  then have "(1 :: rat) / 2 ^ 45 < 1 / (2 * of_nat n)"
    using assms(1) by (simp add: frac_less2)
  moreover have "(3 :: rat) / 2 ^ 47 < 1 / 2 ^ 45" by simp
  ultimately show ?thesis by (rule less_trans [rotated])
qed

lemma round_stable:
  fixes c n :: nat and y :: rat
  assumes n: "0 < n" "n < 2 ^ 44"
    and near: "\<bar>y - of_nat c / of_nat n * 100\<bar> \<le> 3 / 2 ^ 47"
  shows "mathRound y = \<lfloor>of_nat c / of_nat n * 100 + (1 / 2 :: rat)\<rfloor>
       \<or> (frac (of_nat c / of_nat n * 100 :: rat) = 1 / 2
          \<and> mathRound y = \<lfloor>of_nat c / of_nat n * 100 + (1 / 2 :: rat)\<rfloor> - 1)"
proof -
  define p :: rat where "p = of_nat c / of_nat n * 100"
  define m where "m = \<lfloor>p + 1 / 2\<rfloor>"
  define g :: rat where "g = 1 / (2 * of_nat n)"
  define e :: rat where "e = 3 / 2 ^ 47"
  have lo: "of_int m \<le> p + 1 / 2" and hi: "p + 1 / 2 < of_int (m + 1)"
    unfolding m_def by linarith+
  have w: "e < g" unfolding e_def g_def using n by (rule grid_wide)
  have e1: "e < 1 / 2" unfolding e_def by simp
  have nr: "\<bar>y - p\<bar> \<le> e" using near unfolding p_def e_def .
  from hi have "0 < of_int (m + 1) - (p + 1 / 2)" by simp
  then have "g \<le> of_int (m + 1) - (p + 1 / 2)"
    unfolding p_def g_def using n(1) by (intro half_grid)
  with w nr have "y + 1 / 2 < of_int (m + 1)" by linarith
  then have up: "\<lfloor>y + 1 / 2\<rfloor> < m + 1" by (simp only: floor_less_iff)
  have "mathRound y = m \<or> (frac p = 1 / 2 \<and> mathRound y = m - 1)"
  proof (cases "of_int m = p + 1 / 2")
    case True
    then have pm: "p = of_int (m - 1) + 1 / 2" by simp
    have "\<lfloor>p\<rfloor> = m - 1"
    proof (rule floor_unique)
      show "of_int (m - 1) \<le> p" unfolding pm by simp
      show "p < of_int (m - 1) + 1" unfolding pm by simp
    qed
    then have "frac p = p - of_int (m - 1)" by (simp only: frac_def)
    then have "frac p = 1 / 2" using pm by linarith
    moreover have "of_int (m - 1) \<le> y + 1 / 2" using nr e1 True by simp
    then have "m - 1 \<le> \<lfloor>y + 1 / 2\<rfloor>" by (simp only: le_floor_iff)
    ultimately show ?thesis using up unfolding mathRound_def by linarith
  next
    case False
    with lo have "0 < (p + 1 / 2) - of_int m" by simp
    then have "g \<le> (p + 1 / 2) - of_int m"
      unfolding p_def g_def using n(1) by (intro half_grid')
    with w nr have "of_int m \<le> y + 1 / 2" by linarith
    then have "m \<le> \<lfloor>y + 1 / 2\<rfloor>" by (simp only: le_floor_iff)
    then show ?thesis using up unfolding mathRound_def by linarith
  qed
  then show ?thesis unfolding m_def p_def .
qed

lemma completed_le_total: "completed (getStatusCounts d) \<le> total (getStatusCounts d)"
  by (simp add: getStatusCounts_def arrayFilter_eq)

lemma getCompletionRate_doublePercent:
  "getCompletionRate d =
     (if total (getStatusCounts d) = 0 then 0
      else mathRound (doublePercent (completed (getStatusCounts d)) (total (getStatusCounts d))))"
  by (simp add: getCompletionRate_def doublePercent_def Let_def)

text \<open>The counters of the sample record sets.\<close>

lemma tieRecords_counts:
  "total (getStatusCounts (sampleDashboard tieRecords)) = 40"
  "completed (getStatusCounts (sampleDashboard tieRecords)) = 23"
  by (simp_all add: getStatusCounts_def sampleDashboard_def tieRecords_def arrayFilter_eq
      sampleInspection_def filter_map o_def)

lemma scenario_counts:
  "getStatusCounts (sampleDashboard scenarioRecords)
     = \<lparr> total = 4, pending = 1, completed = 2, submitted = 1 \<rparr>"
  by (simp add: getStatusCounts_def sampleDashboard_def scenarioRecords_def
      sampleInspection_def)

subsection \<open>Filtering\<close>

text \<open>
  The callback against the specification's predicate, axis by axis. The two agree when
  no column filter meets a value of \<^verbatim>\<open>t\<close> that is no string and the date column
  filter is empty or the case mapping changes neither that filter nor any formatted date
  (dates printed in digits).
\<close>

lemma matchIgnoringCase_optIncludesLower:
  "matchIgnoringCase d f v \<longleftrightarrow> f = [] \<or> optIncludesLower d v f"
  by (simp add: matchIgnoringCase_def optIncludesLower_def)

lemma matchesSearch_spec:
  "matchesSearch d i \<longleftrightarrow>
     matchIgnoringCase d (searchTerm d) (location_name i) \<or>
     matchIgnoringCase d (searchTerm d) (inspection_number i)"
  by (auto simp add: matchesSearch_def matchIgnoringCase_optIncludesLower)

lemma lowerIncludes_spec:
  "f = [] \<or> v \<noteq> JOther \<Longrightarrow>
     (if f = [] then Inr True else lowerIncludes d v f)
       = Inr (matchIgnoringCase d f (displayText v))"
  by (cases v) (simp_all add: lowerIncludes_def matchIgnoringCase_def displayText_def)

lemma matchesDateFilter_spec:
  assumes "date (columnFilters d) = [] \<or>
     (toLowerCase d (date (columnFilters d)) = date (columnFilters d) \<and>
      (\<forall>s. toLowerCase d (toLocaleDateString d s) = toLocaleDateString d s))"
  shows "matchesDateFilter d i \<longleftrightarrow> matchIgnoringCase d (date (columnFilters d)) (dateText d i)"
  using assms
  by (auto simp add: matchesDateFilter_def matchIgnoringCase_def dateText_def
      split: option.splits)

lemma passes_spec:
  assumes "category (columnFilters d) = [] \<or> categoryName d i \<noteq> JOther"
    and "statusText (columnFilters d) = [] \<or> getStatusText d (status i) \<noteq> JOther"
    and "date (columnFilters d) = [] \<or>
     (toLowerCase d (date (columnFilters d)) = date (columnFilters d) \<and>
      (\<forall>s. toLowerCase d (toLocaleDateString d s) = toLocaleDateString d s))"
  shows "passes d i = Inr (passesSpec d i)"
proof -
  have c: "matchesCategoryFilter d i
      = Inr (matchIgnoringCase d (category (columnFilters d)) (displayText (categoryName d i)))"
    unfolding matchesCategoryFilter_def using assms(1) by (rule lowerIncludes_spec)
  have s: "matchesStatusFilter d i
      = Inr (matchIgnoringCase d (statusText (columnFilters d))
               (displayText (getStatusText d (status i))))"
    unfolding matchesStatusFilter_def using assms(2) by (rule lowerIncludes_spec)
  show ?thesis
    unfolding passes_def c s passesSpec_def
    by (simp add: matchesSearch_spec matchesDateFilter_spec [OF assms(3)]
        matchesCategory_def matchesStatus_def matchesInspectionNumber_def
        matchesLocation_def matchesFilledBy_def matchIgnoringCase_optIncludesLower)
qed

lemma filtered_agrees_with_spec:
  assumes "category (columnFilters d) = [] \<or>
     (\<forall>i \<in> set (inspections d). categoryName d i \<noteq> JOther)"
    and "statusText (columnFilters d) = [] \<or>
     (\<forall>i \<in> set (inspections d). getStatusText d (status i) \<noteq> JOther)"
    and "date (columnFilters d) = [] \<or>
     (toLowerCase d (date (columnFilters d)) = date (columnFilters d) \<and>
      (\<forall>s. toLowerCase d (toLocaleDateString d s) = toLocaleDateString d s))"
  shows "getFilteredInspections d = Inr (filterRecordsSpec d)"
proof -
  have "passes d i = Inr (passesSpec d i)" if "i \<in> set (inspections d)" for i
    using assms(1,2) that by (intro passes_spec assms(3)) auto
  then show ?thesis
    by (simp add: getFilteredInspections_def filterRecordsSpec_def arrayFilterThrowing_eq)
qed

text \<open>
  A column filter on the status over a record whose label is no string: the callback
  throws and the filter returns nothing.
\<close>

lemma status_filter_on_function_label:
  "getFilteredInspections
     ((sampleDashboard [sampleInspection ''6'' ''constructor''])
        \<lparr>columnFilters := noColumnFilters\<lparr>statusText := ''con''\<rparr>\<rparr>)
   = Inl TypeError"
  by code_simp

text \<open>
  C1. The filtered view is not the specification's conjunction for every combination of
  criteria: the date axis of the code compares case as typed. With the date column
  filter \<^verbatim>\<open>invalid\<close> and a record whose date prints as \<^verbatim>\<open>Invalid Date\<close>, the record
  satisfies every axis of the specification and the filtered view is empty.
\<close>

theorem filter_misses_spec_date_match:
  "passesSpec (dateFilterDashboard ''invalid'') invalidDateRecord
   \<and> filterRecordsSpec (dateFilterDashboard ''invalid'') = [invalidDateRecord]
   \<and> getFilteredInspections (dateFilterDashboard ''invalid'') = Inr []"
  by code_simp

subsection \<open>Aggregation\<close>

text \<open>
  C4. For every record set, pending + completed + submitted is at most total, and the
  two are equal exactly when every record's status is one of planned, in_progress, draft,
  approved and submitted.
\<close>

theorem counters_bucket_sum:
  "pending (getStatusCounts d) + completed (getStatusCounts d) + submitted (getStatusCounts d)
     \<le> total (getStatusCounts d)
   \<and> (pending (getStatusCounts d) + completed (getStatusCounts d) + submitted (getStatusCounts d)
        = total (getStatusCounts d)
      \<longleftrightarrow> (\<forall>i \<in> set (inspections d).
            status i \<in> {''planned'', ''in_progress'', ''draft'', ''approved'', ''submitted''}))"
  using counts_le [of "inspections d"] counts_eq_iff [of "inspections d"]
  by (simp add: getStatusCounts_def arrayFilter_eq)

theorem counters_bucket_sum_witness:
  "getStatusCounts (sampleDashboard scenarioRecords)
     = \<lparr> total = 4, pending = 1, completed = 2, submitted = 1 \<rparr>
   \<and> status ` set scenarioRecords
        \<subseteq> {''planned'', ''in_progress'', ''draft'', ''approved'', ''submitted''}
   \<and> pending (getStatusCounts (sampleDashboard (sampleInspection ''9'' ''rejected'' # scenarioRecords)))
       + completed (getStatusCounts (sampleDashboard (sampleInspection ''9'' ''rejected'' # scenarioRecords)))
       + submitted (getStatusCounts (sampleDashboard (sampleInspection ''9'' ''rejected'' # scenarioRecords)))
       < total (getStatusCounts (sampleDashboard (sampleInspection ''9'' ''rejected'' # scenarioRecords)))"
proof -
  have c: "getStatusCounts (sampleDashboard scenarioRecords)
     = \<lparr> total = 4, pending = 1, completed = 2, submitted = 1 \<rparr>"
    by (simp add: getStatusCounts_def sampleDashboard_def scenarioRecords_def
        sampleInspection_def)
  have i: "inspections (sampleDashboard rs) = rs" for rs
    by (simp add: sampleDashboard_def)
  have r: "\<not> (\<forall>i \<in> set (sampleInspection ''9'' ''rejected'' # scenarioRecords).
         status i \<in> {''planned'', ''in_progress'', ''draft'', ''approved'', ''submitted''})"
    by (simp add: sampleInspection_def)
  from counters_bucket_sum [of "sampleDashboard scenarioRecords"] c
  have a: "\<forall>i \<in> set scenarioRecords.
         status i \<in> {''planned'', ''in_progress'', ''draft'', ''approved'', ''submitted''}"
    by (simp add: i)
  then have a': "status ` set scenarioRecords
        \<subseteq> {''planned'', ''in_progress'', ''draft'', ''approved'', ''submitted''}"
    by blast
  from counters_bucket_sum
    [of "sampleDashboard (sampleInspection ''9'' ''rejected'' # scenarioRecords)"] r
  have "pending (getStatusCounts (sampleDashboard (sampleInspection ''9'' ''rejected'' # scenarioRecords)))
       + completed (getStatusCounts (sampleDashboard (sampleInspection ''9'' ''rejected'' # scenarioRecords)))
       + submitted (getStatusCounts (sampleDashboard (sampleInspection ''9'' ''rejected'' # scenarioRecords)))
       < total (getStatusCounts (sampleDashboard (sampleInspection ''9'' ''rejected'' # scenarioRecords)))"
    unfolding i by linarith
  with c a' show ?thesis by blast
qed

subsection \<open>Empty criteria\<close>

text \<open>
  C7. With the search term, the selected category, the selected status and every column
  filter empty, the filter returns, without an exception, the input sequence itself, same
  records in the same order.
\<close>

theorem empty_criteria_identity:
  assumes "searchTerm d = []" and "selectedCategory d = []" and "selectedStatus d = []"
    and "columnFilters d = noColumnFilters"
  shows "getFilteredInspections d = Inr (inspections d)"
proof -
  have "passes d i = Inr True" for i
    using assms
    by (simp add: passes_def matchesSearch_def matchesCategory_def matchesStatus_def
        matchesInspectionNumber_def matchesLocation_def matchesCategoryFilter_def
        matchesStatusFilter_def matchesDateFilter_def matchesFilledBy_def noColumnFilters_def)
  then have "arrayFilterThrowing (passes d) [] (inspections d)
      = Inr ([] @ filter (\<lambda>i. True) (inspections d))"
    by (intro arrayFilterThrowing_eq)
  then show ?thesis
    by (simp add: getFilteredInspections_def)
qed

theorem empty_criteria_identity_witness:
  "getFilteredInspections (sampleDashboard scenarioRecords) = Inr scenarioRecords"
  using empty_criteria_identity [of "sampleDashboard scenarioRecords"]
  by (simp add: sampleDashboard_def)

subsection \<open>Status display\<close>

text \<open>
  C10. \<^verbatim>\<open>getStatusColor\<close> has no case for planned nor for in_progress: both get the
  classes of the default branch, the same as any status no case names.
\<close>

theorem planned_in_progress_default_tier:
  "''planned'' \<notin> set caseLabels \<and> ''in_progress'' \<notin> set caseLabels
   \<and> getStatusColor ''planned'' = slate \<and> getStatusColor ''in_progress'' = slate
   \<and> (s \<notin> set caseLabels \<longrightarrow>
        getStatusColor s = getStatusColor ''planned''
        \<and> getStatusColor s = getStatusColor ''in_progress'')"
  by (simp add: getStatusColor_def caseLabels_def)

theorem planned_in_progress_default_tier_witness:
  "''no_such_status'' \<notin> set caseLabels
   \<and> getStatusColor ''no_such_status'' = getStatusColor ''planned''
   \<and> getStatusColor ''no_such_status'' = getStatusColor ''in_progress''
   \<and> getStatusColor ''planned'' \<noteq> getStatusColor ''approved''"
proof -
  have n: "''no_such_status'' \<notin> set caseLabels"
    by (simp add: caseLabels_def)
  have a: "getStatusColor ''approved'' = emerald"
    by (simp add: getStatusColor_def)
  have "slate \<noteq> emerald"
    by (simp add: slate_def emerald_def)
  with planned_in_progress_default_tier [of "''no_such_status''"] n a show ?thesis
    by simp
qed




subsection \<open>Lifecycle handlers\<close>

text \<open>
  C3. For every record id held by the dialog and every behaviour of the service, confirming
  a revisit with no inspector selected only shows the validation message: the dialog
  state and the table are returned as they were and the service is not called.
\<close>

theorem confirm_revisit_without_inspector:
  assumes "selectedInspector s = []"
  shows "handleConfirmRevisit reassignInspection s rows
           = (s, rows, [Alert ''Please select an inspector for revisit''])
       \<and> storeCalls (snd (snd (handleConfirmRevisit reassignInspection s rows))) = []
       \<and> fst (snd (handleConfirmRevisit reassignInspection s rows)) = rows"
  using assms by (simp add: handleConfirmRevisit_def)

theorem confirm_revisit_without_inspector_witness:
  "handleConfirmRevisit reassignInspectionSpec
     \<lparr> revisitInspectionId = ''2'', selectedInspector = [], showRevisitModal = True,
       isLoading = False \<rparr> scenarioRecords
   = (\<lparr> revisitInspectionId = ''2'', selectedInspector = [], showRevisitModal = True,
        isLoading = False \<rparr>, scenarioRecords,
      [Alert ''Please select an inspector for revisit''])
   \<and> fst (snd (handleConfirmRevisit reassignInspectionSpec
     \<lparr> revisitInspectionId = ''2'', selectedInspector = ''user-42'', showRevisitModal = True,
       isLoading = False \<rparr> scenarioRecords)) \<noteq> scenarioRecords"
proof -
  have "fst (snd (handleConfirmRevisit reassignInspectionSpec
     \<lparr> revisitInspectionId = ''2'', selectedInspector = ''user-42'', showRevisitModal = True,
       isLoading = False \<rparr> scenarioRecords)) \<noteq> scenarioRecords"
    by (simp add: handleConfirmRevisit_def reassignInspectionSpec_def updateWhereId_def
        scenarioRecords_def sampleInspection_def)
  with confirm_revisit_without_inspector
    [of "\<lparr> revisitInspectionId = ''2'', selectedInspector = [], showRevisitModal = True,
       isLoading = False \<rparr>" reassignInspectionSpec scenarioRecords]
  show ?thesis by simp
qed

text \<open>
  C9. For every record of the table with the given id, whatever its status, a completion
  that the backend accepts leaves the record with status approved and with every other
  field as it was; rows with another id are not changed.
\<close>

theorem complete_sets_only_status:
  assumes "k < length rows" and "insp_id (rows ! k) = inspectionId"
  shows "\<exists>rows'. handleCompleteInspection (Some rows) None inspectionId
            = (Some rows', [FetchInspectionsData, Alert ''Inspection marked as completed''])
          \<and> length rows' = length rows
          \<and> rows' ! k = (rows ! k)\<lparr>status := ''approved''\<rparr>
          \<and> status (rows' ! k) = ''approved''
          \<and> insp_id (rows' ! k) = insp_id (rows ! k)
          \<and> inspection_number (rows' ! k) = inspection_number (rows ! k)
          \<and> category_id (rows' ! k) = category_id (rows ! k)
          \<and> inspector_id (rows' ! k) = inspector_id (rows ! k)
          \<and> location_name (rows' ! k) = location_name (rows ! k)
          \<and> latitude (rows' ! k) = latitude (rows ! k)
          \<and> longitude (rows' ! k) = longitude (rows ! k)
          \<and> address (rows' ! k) = address (rows ! k)
          \<and> planned_date (rows' ! k) = planned_date (rows ! k)
          \<and> inspection_date (rows' ! k) = inspection_date (rows ! k)
          \<and> form_data (rows' ! k) = form_data (rows ! k)
          \<and> is_compliant (rows' ! k) = is_compliant (rows ! k)
          \<and> requires_revisit (rows' ! k) = requires_revisit (rows ! k)
          \<and> created_at (rows' ! k) = created_at (rows ! k)
          \<and> updated_at (rows' ! k) = updated_at (rows ! k)
          \<and> filled_by_name (rows' ! k) = filled_by_name (rows ! k)
          \<and> photos (rows' ! k) = photos (rows ! k)
          \<and> (\<forall>j < length rows. insp_id (rows ! j) \<noteq> inspectionId \<longrightarrow> rows' ! j = rows ! j)"
  using assms by (simp add: handleCompleteInspection_def updateWhereId_def)

theorem complete_sets_only_status_witness:
  "fst (handleCompleteInspection (Some scenarioRecords) None ''1'')
     = Some [sampleInspection ''1'' ''approved'', sampleInspection ''2'' ''approved'',
             sampleInspection ''3'' ''submitted'', sampleInspection ''4'' ''approved'']"
proof -
  have k: "(0::nat) < length scenarioRecords" by (simp add: scenarioRecords_def)
  have i: "insp_id (scenarioRecords ! 0) = ''1''"
    by (simp add: scenarioRecords_def sampleInspection_def)
  from complete_sets_only_status [OF k i] obtain rows' where
    r: "handleCompleteInspection (Some scenarioRecords) None ''1''
            = (Some rows', [FetchInspectionsData, Alert ''Inspection marked as completed''])"
    by blast
  have "handleCompleteInspection (Some scenarioRecords) None ''1''
     = (Some [sampleInspection ''1'' ''approved'', sampleInspection ''2'' ''approved'',
             sampleInspection ''3'' ''submitted'', sampleInspection ''4'' ''approved''],
        [FetchInspectionsData, Alert ''Inspection marked as completed''])"
    by (simp add: handleCompleteInspection_def updateWhereId_def scenarioRecords_def
        sampleInspection_def)
  with r show ?thesis by simp
qed

subsection \<open>Completion rate\<close>

text \<open>
  C2, as the code has it. For every record set the rate is 0 when there is no record and
  lies between 0 and 100. With fewer than \<open>2 ^ 44\<close> records it is the percentage rounded
  half up, except that on an exact tie (a percentage of the form \<open>k + 1 / 2\<close>) the
  doubles may fall short of the tie and the rate is then \<open>k\<close>.
\<close>

theorem completion_rate_double:
  "(total (getStatusCounts d) = 0 \<longrightarrow> getCompletionRate d = 0)
   \<and> 0 \<le> getCompletionRate d \<and> getCompletionRate d \<le> 100
   \<and> (total (getStatusCounts d) < 2 ^ 44 \<longrightarrow>
        getCompletionRate d
          = completionRateSpec (completed (getStatusCounts d)) (total (getStatusCounts d))
        \<or> (frac (of_nat (completed (getStatusCounts d)) / of_nat (total (getStatusCounts d))
                   * 100 :: rat) = 1 / 2
           \<and> getCompletionRate d
               = completionRateSpec (completed (getStatusCounts d)) (total (getStatusCounts d))
                 - 1))"
proof (cases "total (getStatusCounts d) = 0")
  case True
  then show ?thesis
    by (simp add: getCompletionRate_doublePercent completionRateSpec_def)
next
  case False
  let ?c = "completed (getStatusCounts d)" and ?n = "total (getStatusCounts d)"
  from False have n: "0 < ?n" by simp
  note b = doublePercent_bounds [OF completed_le_total n]
  have r: "getCompletionRate d = mathRound (doublePercent ?c ?n)"
    using False by (simp add: getCompletionRate_doublePercent)
  have "0 \<le> \<lfloor>doublePercent ?c ?n + 1 / 2\<rfloor>" using b(1) by simp
  moreover have "\<lfloor>doublePercent ?c ?n + 1 / 2\<rfloor> \<le> 100"
    using b(2) by (simp add: floor_le_iff)
  moreover have "?n < 2 ^ 44 \<Longrightarrow>
      mathRound (doublePercent ?c ?n) = completionRateSpec ?c ?n
      \<or> (frac (of_nat ?c / of_nat ?n * 100 :: rat) = 1 / 2
         \<and> mathRound (doublePercent ?c ?n) = completionRateSpec ?c ?n - 1)"
    using round_stable [OF n _ b(3)] False by (simp add: completionRateSpec_def)
  ultimately show ?thesis using False unfolding r mathRound_def by blast
qed

theorem completion_rate_double_witness:
  "getCompletionRate (sampleDashboard scenarioRecords) = 50
   \<and> getCompletionRate (sampleDashboard []) = 0"
proof -
  note c = scenario_counts
  have f: "frac (of_nat 2 / of_nat 4 * 100 :: rat) \<noteq> 1 / 2" by (simp add: frac_def)
  have s: "completionRateSpec 2 4 = 50" by code_simp
  from completion_rate_double [of "sampleDashboard scenarioRecords"] f s
  have 1: "getCompletionRate (sampleDashboard scenarioRecords) = 50"
    by (simp add: c)
  have "total (getStatusCounts (sampleDashboard [])) = 0"
    by (simp add: getStatusCounts_def sampleDashboard_def)
  with completion_rate_double [of "sampleDashboard []"]
  have 2: "getCompletionRate (sampleDashboard []) = 0" by blast
  from 1 2 show ?thesis by blast
qed

text \<open>
  With 23 approved records out of 40 the percentage is exactly 57.5, which rounds half up to
  58; the quotient 0.575 is no double, the product of its double by 100 falls below 57.5,
  and the rate is 57.
\<close>

theorem completion_rate_tie_counterexample:
  "completed (getStatusCounts (sampleDashboard tieRecords)) = 23
   \<and> total (getStatusCounts (sampleDashboard tieRecords)) = 40
   \<and> completionRateSpec 23 40 = 58
   \<and> getCompletionRate (sampleDashboard tieRecords) = 57
   \<and> getCompletionRate (sampleDashboard tieRecords)
       \<noteq> completionRateSpec (completed (getStatusCounts (sampleDashboard tieRecords)))
           (total (getStatusCounts (sampleDashboard tieRecords)))"
proof -
  have s: "completionRateSpec 23 40 = 58" by code_simp
  have d: "mathRound (doublePercent 23 40) = 57" by code_simp
  have r: "getCompletionRate (sampleDashboard tieRecords) = 57"
    using d by (simp add: getCompletionRate_doublePercent tieRecords_counts)
  show ?thesis by (simp add: tieRecords_counts s r)
qed

subsection \<open>Counters and filters\<close>

text \<open>
  C6. The counters and the completion rate are computed from the records alone: two
  dashboards with the same records and any filter criteria have the same counters and the
  same rate, and the total is the number of all records, not of the filtered ones.
\<close>

theorem counters_independent_of_filters:
  assumes "inspections d1 = inspections d2"
  shows "getStatusCounts d1 = getStatusCounts d2
       \<and> getCompletionRate d1 = getCompletionRate d2
       \<and> total (getStatusCounts d1) = length (inspections d1)"
  using assms by (simp add: getStatusCounts_def getCompletionRate_def)

theorem counters_independent_of_filters_witness:
  "getFilteredInspections (sampleDashboard scenarioRecords) = Inr scenarioRecords
   \<and> getFilteredInspections
        ((sampleDashboard scenarioRecords)\<lparr>selectedStatus := ''rejected'', searchTerm := ''depot''\<rparr>)
       = Inr []
   \<and> getStatusCounts
        ((sampleDashboard scenarioRecords)\<lparr>selectedStatus := ''rejected'', searchTerm := ''depot''\<rparr>)
       = \<lparr> total = 4, pending = 1, completed = 2, submitted = 1 \<rparr>
   \<and> getCompletionRate
        ((sampleDashboard scenarioRecords)\<lparr>selectedStatus := ''rejected'', searchTerm := ''depot''\<rparr>)
       = getCompletionRate (sampleDashboard scenarioRecords)"
proof -
  let ?d2 = "(sampleDashboard scenarioRecords)\<lparr>selectedStatus := ''rejected'', searchTerm := ''depot''\<rparr>"
  have i: "inspections (sampleDashboard scenarioRecords) = inspections ?d2" by simp
  have f2: "getFilteredInspections ?d2 = Inr []"
    by code_simp
  have f1: "getFilteredInspections (sampleDashboard scenarioRecords) = Inr scenarioRecords"
    by code_simp
  from counters_independent_of_filters [OF i] scenario_counts f1 f2
  show ?thesis by simp
qed

subsection \<open>The date column filter\<close>

text \<open>
  C5. The date column filter compares the formatted date with the filter text as typed:
  neither side is put in lower case, while the other column filters lower both. A record
  whose date prints as \<^verbatim>\<open>Invalid Date\<close> is dropped by the filter text
  \<^verbatim>\<open>invalid\<close>, which a case-insensitive match finds in it, and kept by
  \<^verbatim>\<open>Invalid\<close>.
\<close>

theorem date_filter_case_sensitive:
  "inspectionDate invalidDateRecord = Some ''not-a-date''
   \<and> toLocaleDateString (dateFilterDashboard ''invalid'') ''not-a-date'' = ''Invalid Date''
   \<and> strIncludes (toLowerCase (dateFilterDashboard ''invalid'') ''Invalid Date'')
        (toLowerCase (dateFilterDashboard ''invalid'') ''invalid'')
   \<and> \<not> matchesDateFilter (dateFilterDashboard ''invalid'') invalidDateRecord
   \<and> getFilteredInspections (dateFilterDashboard ''invalid'') = Inr []
   \<and> getFilteredInspections (dateFilterDashboard ''Invalid'') = Inr [invalidDateRecord]"
  by code_simp

end
